theory Spec2Isabelle
  imports Main
begin

section \<open>The data model of \<open>src/app/api/data/route.ts\<close>\<close>

text \<open>
  The route handler keeps a list of bibliographic records in one JSON file and serves
  four operations over it (GET, POST, PUT, DELETE). This theory embeds the handler
  function by function and proves what the specification says about it.

  \<^verbatim>\<open>
  interface Article {
    id: number; authors: string; doi?: string; title?: string;
    keywords: string[]; models: string[]; techniques: string[]; results: string[];
    notes?: string;
  }
  interface DataFile { articles: Article[]; }
  \<close>

  The TypeScript types are erased at run time and every value enters through an
  unchecked cast (\<open>as Article\<close>, \<open>as Partial<Article>\<close>, \<open>as DataFile\<close>), so an object
  of the Article shape may lack any of its properties: POST stores whatever partial record
  it was sent. A property the object lacks (\<open>undefined\<close>) is \<open>None\<close>. The field \<open>id\<close> is
  written \<open>id'\<close>, since \<open>id\<close> is the identity function of HOL, and \<open>keywords\<close> is
  written \<open>keywords'\<close> and \<open>notes\<close> is written \<open>notes'\<close>, both words being reserved in
  Isabelle.

  An id that is present is an integer, as the specification's data model has it, held
  as JavaScript holds every number: as a binary64 value. The ids of a Document are the
  numbers that \<open>JSON.parse\<close> produced, so each of them is an integer that binary64
  represents. Fractional ids and the infinities are outside the model.
\<close>

record article =
  id' :: "int option"
  authors :: "string option"
  doi :: "string option"
  title :: "string option"
  keywords' :: "string list option"
  models :: "string list option"
  techniques :: "string list option"
  results :: "string list option"
  notes' :: "string option"

record DataFile =
  articles :: "article list"

section \<open>The backing file and the \<open>fs\<close> primitives\<close>

text \<open>
  The content of \<open>public/data.json\<close> is either the JSON text of a value of the DataFile
  shape or text that \<open>JSON.parse\<close> rejects. \<open>JSON.stringify\<close> and \<open>JSON.parse\<close> are
  library functions; they are taken to be inverse to each other on values of the DataFile
  shape, so the text of a document is represented by the document itself. JSON of another
  shape, which the cast \<open>as DataFile\<close> would let through, is outside the model.

  The file is absent (\<open>readFileSync\<close> throws ENOENT), unreadable (it throws EACCES or
  the like) or holds some content. How a \<open>writeFileSync\<close> ends is decided by the
  environment: it completes; or it throws before the file is touched (no permission,
  read-only file system); or it throws after the file was opened with flag \<open>w\<close>, which
  truncates it, so that what is left is an incomplete text that does not parse (disk full,
  I/O error). The store also logs every access to the file, so that "no read" and "no
  write" can be stated.
\<close>

datatype content = Json DataFile | Malformed

datatype fs_file = Absent | Unreadable | Holds content

datatype write_outcome = Completes | Refused | Torn

datatype access = Read | Write content

datatype exn = ENOENT | EACCES | EIO | SyntaxError

record store =
  disk :: fs_file
  outcome :: write_outcome
  accesses :: "access list"

definition JSON_stringify :: "DataFile \<Rightarrow> content" where
  "JSON_stringify data = Json data"

fun JSON_parse :: "content \<Rightarrow> exn + DataFile" where
  "JSON_parse (Json data) = Inr data"
| "JSON_parse Malformed = Inl SyntaxError"

definition readFileSync :: "store \<Rightarrow> (exn + content) \<times> store" where
  "readFileSync s =
     ((case disk s of
         Absent \<Rightarrow> Inl ENOENT
       | Unreadable \<Rightarrow> Inl EACCES
       | Holds c \<Rightarrow> Inr c),
      s\<lparr>accesses := accesses s @ [Read]\<rparr>)"

definition writeFileSync :: "store \<Rightarrow> content \<Rightarrow> (exn + unit) \<times> store" where
  "writeFileSync s c =
     (let s' = s\<lparr>accesses := accesses s @ [Write c]\<rparr>
      in case outcome s of
           Completes \<Rightarrow> (Inr (), s'\<lparr>disk := Holds c\<rparr>)
         | Refused \<Rightarrow> (Inl EACCES, s')
         | Torn \<Rightarrow> (Inl EIO, s'\<lparr>disk := Holds Malformed\<rparr>))"

section \<open>\<open>readDataFile\<close> and \<open>writeDataFile\<close> (lines 24-46)\<close>

text \<open>
  \<^verbatim>\<open>
  function readDataFile(): DataFile {
    try {
      const fileContent = fs.readFileSync(DATA_FILE_PATH, "utf8");
      return JSON.parse(fileContent) as DataFile;
    } catch (error) { console.error(...); return { articles: [] }; }
  }
  function writeDataFile(data: DataFile): boolean {
    try {
      fs.writeFileSync(DATA_FILE_PATH, JSON.stringify(data, null, 2), "utf8");
      return true;
    } catch (error) { console.error(...); return false; }
  }
  \<close>
  The body of each \<open>try\<close> is a function into \<open>exn + _\<close>; the \<open>catch\<close> turns \<open>Inl\<close> into
  the fallback value.
\<close>

definition readDataFile_try :: "store \<Rightarrow> (exn + DataFile) \<times> store" where
  "readDataFile_try s =
     (case readFileSync s of
        (Inl e, s') \<Rightarrow> (Inl e, s')
      | (Inr fileContent, s') \<Rightarrow> (JSON_parse fileContent, s'))"

definition readDataFile :: "store \<Rightarrow> DataFile \<times> store" where
  "readDataFile s =
     (case readDataFile_try s of
        (Inr data, s') \<Rightarrow> (data, s')
      | (Inl error, s') \<Rightarrow> (\<lparr>articles = []\<rparr>, s'))"

definition writeDataFile :: "store \<Rightarrow> DataFile \<Rightarrow> bool \<times> store" where
  "writeDataFile s data =
     (case writeFileSync s (JSON_stringify data) of
        (Inr u, s') \<Rightarrow> (True, s')
      | (Inl error, s') \<Rightarrow> (False, s'))"

section \<open>Requests and responses\<close>

text \<open>
  A request carries what the handlers read from it: \<open>body\<close> is what
  \<open>await request.json()\<close> resolves to (\<open>None\<close> when it rejects, the body not being JSON),
  and \<open>id_param\<close> is \<open>new URL(request.url).searchParams.get("id")\<close> (\<open>None\<close> for \<open>null\<close>,
  the parameter being absent).

  A response is \<open>NextResponse.json(value, { status })\<close>, the status being 200 when none
  is given. The four messages are, in the source, \<open>"ID manquant"\<close>,
  \<open>"Article non trouve"\<close>, \<open>"Echec de l'ecriture du fichier"\<close> and \<open>"Erreur serveur"\<close>
  (accents left out here).
\<close>

record request =
  body :: "article option"
  id_param :: "string option"

datatype message = ID_manquant | Article_non_trouve | Echec_ecriture | Erreur_serveur

datatype json_value =
    Data DataFile
  | Success_article article
  | Success
  | Failure message

record response =
  status :: nat
  json :: json_value

definition NextResponse_json :: "json_value \<Rightarrow> nat \<Rightarrow> response" where
  "NextResponse_json v st = \<lparr>status = st, json = v\<rparr>"

section \<open>GET (lines 49-52)\<close>

definition GET :: "store \<Rightarrow> response \<times> store" where
  "GET s = (case readDataFile s of (data, s') \<Rightarrow> (NextResponse_json (Data data) 200, s'))"

section \<open>JavaScript numbers\<close>

text \<open>
  A binary64 number has a significand of 53 bits, so every integer up to \<open>2^53\<close> in
  magnitude is a number, and beyond that only the multiples of a power of two are. The
  Number value of an integer \<open>x\<close> is the number nearest to \<open>x\<close>, the one with the even
  significand when two are equally near. For \<open>n \<ge> 0\<close>, \<open>excess_bits n\<close> is the number \<open>k\<close>
  of low bits that do not fit the significand, \<open>q = n div 2^k\<close> is the significand cut off
  and \<open>r = n mod 2^k\<close> is what was cut; \<open>q\<close> goes up by one when \<open>r\<close> is more than half of
  \<open>2^k\<close>, or exactly half with \<open>q\<close> odd. The exponent is not bounded here: an integer of
  \<open>2^1024\<close> or more, whose Number value is \<open>Infinity\<close>, is outside the model.

  The sum \<open>a + b\<close> of two numbers is the Number value of the exact sum.
\<close>

function excess_bits :: "int \<Rightarrow> nat" where
  "excess_bits n = (if n < 2 ^ 53 then 0 else Suc (excess_bits (n div 2)))"
  by pat_completeness auto
termination
  by (relation "measure nat") auto

declare excess_bits.simps [simp del]

definition round_half_even :: "int \<Rightarrow> int" where
  "round_half_even n =
     (let k = excess_bits n; q = n div 2 ^ k; r = n mod 2 ^ k
      in if 2 * r > 2 ^ k \<or> (2 * r = 2 ^ k \<and> odd q) then (q + 1) * 2 ^ k else q * 2 ^ k)"

definition Number_value :: "int \<Rightarrow> int" where
  "Number_value x = (if x < 0 then - round_half_even (- x) else round_half_even x)"

definition number_plus :: "int \<Rightarrow> int \<Rightarrow> int" where
  "number_plus a b = Number_value (a + b)"

section \<open>POST (lines 55-88)\<close>

text \<open>
  \<^verbatim>\<open>
  const maxId = data.articles.reduce(
    (max: number, article: Article) => (article.id > max ? article.id : max), 0);
  newArticle.id = maxId + 1;
  data.articles.push(newArticle as Article);
  const success = writeDataFile(data);
  \<close>
  \<open>reduce\<close> folds from the left, starting at 0. For an article without id the
  comparison \<open>undefined > max\<close> is false and the running maximum is kept. The comment
  above these lines reads "Generer un nouvel ID (utiliser le plus grand ID existant +
  1)": make a new id, the largest existing id plus one. \<open>maxId + 1\<close> is a sum of numbers.
\<close>

definition maxId :: "article list \<Rightarrow> int" where
  "maxId as =
     foldl (\<lambda>mx article. case id' article of
                            Some i \<Rightarrow> (if i > mx then i else mx)
                          | None \<Rightarrow> mx) 0 as"

definition POST :: "store \<Rightarrow> request \<Rightarrow> response \<times> store" where
  "POST s request =
     (case readDataFile s of (data, s1) \<Rightarrow>
        (case body request of
           None \<Rightarrow> (NextResponse_json (Failure Erreur_serveur) 500, s1)
         | Some newArticle \<Rightarrow>
             (let newArticle' = newArticle\<lparr>id' := Some (number_plus (maxId (articles data)) 1)\<rparr>;
                  data' = data\<lparr>articles := articles data @ [newArticle']\<rparr>
              in case writeDataFile s1 data' of
                   (True, s2) \<Rightarrow> (NextResponse_json (Success_article newArticle') 200, s2)
                 | (False, s2) \<Rightarrow> (NextResponse_json (Failure Echec_ecriture) 500, s2))))"

section \<open>PUT (lines 91-129)\<close>

text \<open>
  \<open>findIndex\<close> returns the first index whose element satisfies the predicate, and \<open>-1\<close>
  when there is none. \<open>article.id === updatedArticle.id\<close> compares two numbers, or finds
  both \<open>undefined\<close>: equality of the optional ids.
\<close>

fun findIndex :: "('a \<Rightarrow> bool) \<Rightarrow> 'a list \<Rightarrow> int" where
  "findIndex p [] = - 1"
| "findIndex p (x # xs) =
     (if p x then 0
      else (let r = findIndex p xs in if r = - 1 then - 1 else r + 1))"

definition PUT :: "store \<Rightarrow> request \<Rightarrow> response \<times> store" where
  "PUT s request =
     (case readDataFile s of (data, s1) \<Rightarrow>
        (case body request of
           None \<Rightarrow> (NextResponse_json (Failure Erreur_serveur) 500, s1)
         | Some updatedArticle \<Rightarrow>
             (let index = findIndex (\<lambda>article. id' article = id' updatedArticle) (articles data)
              in if index = - 1
                 then (NextResponse_json (Failure Article_non_trouve) 404, s1)
                 else
                   (let data' = data\<lparr>articles := (articles data)[nat index := updatedArticle]\<rparr>
                    in case writeDataFile s1 data' of
                         (True, s2) \<Rightarrow> (NextResponse_json (Success_article updatedArticle) 200, s2)
                       | (False, s2) \<Rightarrow> (NextResponse_json (Failure Echec_ecriture) 500, s2)))))"

section \<open>DELETE (lines 132-178)\<close>

text \<open>
  \<^verbatim>\<open>
  const id = parseInt(url.searchParams.get("id") || "0");
  if (!id) { return NextResponse.json({...}, { status: 400 }); }
  \<close>
  \<open>parseInt\<close> with no radix, after ECMAScript: leading white space is dropped, a sign is
  read, a prefix \<open>0x\<close> or \<open>0X\<close> selects radix 16 (else the radix is 10), and the longest
  run of digits of the radix is read as an integer; with no digit the result is \<open>NaN\<close>,
  here \<open>None\<close>, and otherwise it is the Number value of the signed integer (an
  implementation may replace the decimal digits after the twentieth by zeros; the digits are
  read exactly here). White space is the white space of Latin-1 (TAB, LF, VT, FF, CR, SP, NBSP).
  \<open>x || "0"\<close> is \<open>"0"\<close> when \<open>x\<close> is \<open>null\<close> or the empty string. \<open>!id\<close> holds when \<open>id\<close> is
  \<open>NaN\<close> or zero. \<open>request.url\<close> is the absolute URL the framework supplies, so
  \<open>new URL\<close> does not throw. \<open>article.id !== id\<close> is true for an article without id.
\<close>

definition isWhiteSpace :: "char \<Rightarrow> bool" where
  "isWhiteSpace c \<longleftrightarrow> of_char c \<in> set [9, 10, 11, 12, 13, 32, 160 :: nat]"

definition digitValue :: "char \<Rightarrow> nat option" where
  "digitValue c =
     (let n = (of_char c :: nat)
      in if 48 \<le> n \<and> n \<le> 57 then Some (n - 48)
         else if 97 \<le> n \<and> n \<le> 102 then Some (n - 87)
         else if 65 \<le> n \<and> n \<le> 70 then Some (n - 55)
         else None)"

fun digitsOf :: "nat \<Rightarrow> string \<Rightarrow> nat list" where
  "digitsOf R [] = []"
| "digitsOf R (c # cs) =
     (case digitValue c of
        None \<Rightarrow> []
      | Some d \<Rightarrow> (if d < R then d # digitsOf R cs else []))"

definition parseInt :: "string \<Rightarrow> int option" where
  "parseInt inputString =
     (let S = dropWhile isWhiteSpace inputString;
          sign = (if take 1 S = ''-'' then - 1 else 1 :: int);
          S = (if take 1 S = ''+'' \<or> take 1 S = ''-'' then drop 1 S else S);
          R = (if take 2 S = ''0x'' \<or> take 2 S = ''0X'' then 16 else 10 :: nat);
          S = (if R = 16 then drop 2 S else S);
          Z = digitsOf R S
      in if Z = [] then None
         else Some (Number_value (sign * int (foldl (\<lambda>n d. n * R + d) 0 Z))))"

definition or_string :: "string option \<Rightarrow> string \<Rightarrow> string" where
  "or_string x d = (case x of None \<Rightarrow> d | Some v \<Rightarrow> (if v = [] then d else v))"

definition DELETE :: "store \<Rightarrow> request \<Rightarrow> response \<times> store" where
  "DELETE s request =
     (case parseInt (or_string (id_param request) ''0'') of
        None \<Rightarrow> (NextResponse_json (Failure ID_manquant) 400, s)
      | Some idn \<Rightarrow>
          (if idn = 0 then (NextResponse_json (Failure ID_manquant) 400, s)
           else
             (case readDataFile s of (data, s1) \<Rightarrow>
                (let filteredArticles = filter (\<lambda>article. id' article \<noteq> Some idn) (articles data)
                 in if length filteredArticles = length (articles data)
                    then (NextResponse_json (Failure Article_non_trouve) 404, s1)
                    else
                      (let data' = data\<lparr>articles := filteredArticles\<rparr>
                       in case writeDataFile s1 data' of
                            (True, s2) \<Rightarrow> (NextResponse_json Success 200, s2)
                          | (False, s2) \<Rightarrow> (NextResponse_json (Failure Echec_ecriture) 500, s2))))))"

section \<open>Notions used to state the properties\<close>

text \<open>
  \<open>document s\<close> is the Document the store holds, that is, what \<open>readDataFile\<close> returns
  for it. \<open>ids_of\<close> lists the ids that are present in a sequence of articles, in order.
  \<open>unique_ids\<close> says that these ids are pairwise distinct. \<open>logged s evs\<close> is the store
  \<open>s\<close> after the accesses \<open>evs\<close>.
\<close>

definition document :: "store \<Rightarrow> DataFile" where
  "document s = fst (readDataFile s)"

definition ids_of :: "article list \<Rightarrow> int list" where
  "ids_of as = List.map_filter id' as"

definition unique_ids :: "DataFile \<Rightarrow> bool" where
  "unique_ids data \<longleftrightarrow> distinct (ids_of (articles data))"

definition logged :: "store \<Rightarrow> access list \<Rightarrow> store" where
  "logged s evs = s\<lparr>accesses := accesses s @ evs\<rparr>"

text \<open>
  The specification's wording of the id rule, "(max id among existing articles, or 0) + 1":
  the largest existing id, and 0 when there is none.
\<close>

definition spec_newId :: "article list \<Rightarrow> int" where
  "spec_newId as = (if ids_of as = [] then 0 else Max (set (ids_of as))) + 1"

text \<open>A sequence of Creates, one request after the other, each on the store the last one left.\<close>

fun POST_each :: "store \<Rightarrow> article list \<Rightarrow> response list \<times> store" where
  "POST_each s [] = ([], s)"
| "POST_each s (a # as) =
     (case POST s \<lparr>body = Some a, id_param = None\<rparr> of (r, s') \<Rightarrow>
        (case POST_each s' as of (rs, s'') \<Rightarrow> (r # rs, s'')))"

text \<open>
  Sample values: a complete record as the form of the user interface sends it, with and
  without an id, and a store whose file holds the given articles.
\<close>

definition entry :: "int \<Rightarrow> string \<Rightarrow> article" where
  "entry i t = \<lparr>id' = Some i, authors = Some ''A. Smith'', doi = None, title = Some t,
     keywords' = Some [''x''], models = Some [''m''], techniques = Some [''t''],
     results = Some [''r''], notes' = None\<rparr>"

definition stored :: "article list \<Rightarrow> write_outcome \<Rightarrow> store" where
  "stored as w = \<lparr>disk = Holds (Json \<lparr>articles = as\<rparr>), outcome = w, accesses = []\<rparr>"

definition draft :: "string \<Rightarrow> article" where
  "draft t = \<lparr>id' = None, authors = Some ''A. Smith'', doi = None, title = Some t,
     keywords' = Some [''x''], models = Some [''m''], techniques = Some [''t''],
     results = Some [''r''], notes' = None\<rparr>"

section \<open>Auxiliary facts\<close>

subsection \<open>Numbers\<close>

lemma excess_bits_small: "n < 2 ^ 53 \<Longrightarrow> excess_bits n = 0"
  by (simp add: excess_bits.simps)

lemma excess_bits_1: "2 ^ 53 \<le> n \<Longrightarrow> n < 2 ^ 54 \<Longrightarrow> excess_bits n = 1"
  by (simp add: excess_bits.simps [of n] excess_bits_small)

lemma round_half_even_small: "0 \<le> n \<Longrightarrow> n \<le> 2 ^ 53 \<Longrightarrow> round_half_even n = n"
proof (cases "n < 2 ^ 53")
  case True
  then show ?thesis by (simp add: round_half_even_def excess_bits_small)
next
  case False
  assume "n \<le> 2 ^ 53"
  with False have n: "n = 2 ^ 53" by simp
  then have "excess_bits n = 1" by (simp add: excess_bits_1)
  then show ?thesis by (simp add: round_half_even_def n)
qed

lemma Number_value_small: "\<bar>x\<bar> \<le> 2 ^ 53 \<Longrightarrow> Number_value x = x"
  by (auto simp: Number_value_def round_half_even_small)

lemma number_plus_small: "0 \<le> m \<Longrightarrow> m < 2 ^ 53 \<Longrightarrow> number_plus m 1 = m + 1"
  by (simp add: number_plus_def Number_value_small)

lemma number_plus_2_53: "number_plus 9007199254740992 1 = 9007199254740992"
  by (simp add: number_plus_def Number_value_def round_half_even_def excess_bits_1)

lemma Number_value_2_53_1: "Number_value 9007199254740993 = 9007199254740992"
  by (simp add: Number_value_def round_half_even_def excess_bits_1)

subsection \<open>The store\<close>

lemma readDataFile_eq: "readDataFile s = (document s, logged s [Read])"
  by (simp add: document_def logged_def readDataFile_def readDataFile_try_def readFileSync_def
      split: fs_file.splits content.splits sum.splits prod.splits)

lemma document_cases:
  "document s = (case disk s of Holds (Json data) \<Rightarrow> data | _ \<Rightarrow> \<lparr>articles = []\<rparr>)"
  by (simp add: document_def readDataFile_def readDataFile_try_def readFileSync_def
      split: fs_file.splits content.splits)

lemma document_logged [simp]: "document (logged s evs) = document s"
  by (simp add: document_cases logged_def)

lemma writeDataFile_eq:
  "writeDataFile s data =
     (case outcome s of
        Completes \<Rightarrow> (True, (logged s [Write (Json data)])\<lparr>disk := Holds (Json data)\<rparr>)
      | Refused \<Rightarrow> (False, logged s [Write (Json data)])
      | Torn \<Rightarrow> (False, (logged s [Write (Json data)])\<lparr>disk := Holds Malformed\<rparr>))"
  by (simp add: writeDataFile_def writeFileSync_def JSON_stringify_def logged_def Let_def
      split: write_outcome.splits)

lemma document_disk [simp]: "document (s\<lparr>disk := Holds (Json data)\<rparr>) = data"
  by (simp add: document_cases)

lemma document_torn [simp]: "document (s\<lparr>disk := Holds Malformed\<rparr>) = \<lparr>articles = []\<rparr>"
  by (simp add: document_cases)

lemma outcome_logged [simp]: "outcome (logged s evs) = outcome s"
  by (simp add: logged_def)

lemma disk_logged [simp]: "disk (logged s evs) = disk s"
  by (simp add: logged_def)

lemma accesses_logged [simp]: "accesses (logged s evs) = accesses s @ evs"
  by (simp add: logged_def)

subsection \<open>The id rule\<close>

lemma maxId_foldl:
  "foldl (\<lambda>mx article. case id' article of Some i \<Rightarrow> (if i > mx then i else mx) | None \<Rightarrow> mx) m as
     = Max (insert m (set (ids_of as)))"
proof (induction as arbitrary: m)
  case Nil
  then show ?case by (simp add: ids_of_def List.map_filter_simps)
next
  case (Cons a as)
  show ?case
  proof (cases "id' a")
    case None
    then show ?thesis using Cons.IH [of m] by (simp add: ids_of_def List.map_filter_simps)
  next
    case (Some i)
    have "Max (insert (max m i) (set (ids_of as))) = Max (insert m (insert i (set (ids_of as))))"
      by (metis List.finite_set Max_insert Max_singleton finite.insertI insert_not_empty max.assoc)
    then show ?thesis using Some Cons.IH [of "if i > m then i else m"]
      by (simp add: ids_of_def List.map_filter_simps max_def split: if_splits)
  qed
qed

lemma maxId_Max: "maxId as = Max (insert 0 (set (ids_of as)))"
  unfolding maxId_def by (rule maxId_foldl)

lemma maxId_nonneg: "0 \<le> maxId as"
  by (simp add: maxId_Max)

lemma new_id_small: "maxId as < 2 ^ 53 \<Longrightarrow> number_plus (maxId as) 1 = maxId as + 1"
  by (simp add: number_plus_small maxId_nonneg)

lemma maxId_snoc:
  "maxId as < 2 ^ 53 \<Longrightarrow> maxId (as @ [a\<lparr>id' := Some (number_plus (maxId as) 1)\<rparr>]) = maxId as + 1"
  by (simp add: new_id_small) (simp add: maxId_def)

lemma maxId_ge: "i \<in> set (ids_of as) \<Longrightarrow> i \<le> maxId as"
  by (simp add: maxId_Max)

lemma ids_of_snoc: "ids_of (as @ [a]) = ids_of as @ (case id' a of None \<Rightarrow> [] | Some i \<Rightarrow> [i])"
  by (simp add: ids_of_def List.map_filter_def split: option.splits)

lemma ids_of_filter: "ids_of (filter (\<lambda>a. id' a \<noteq> Some i) as) = filter (\<lambda>j. j \<noteq> i) (ids_of as)"
  by (induction as) (auto simp: ids_of_def List.map_filter_simps split: option.splits)

lemma maxId_nonneg_agree:
  "ids_of as = [] \<or> (\<exists>i \<in> set (ids_of as). 0 \<le> i) \<Longrightarrow> maxId as + 1 = spec_newId as"
proof (cases "ids_of as = []")
  case True
  then show ?thesis by (simp add: maxId_Max spec_newId_def)
next
  case False
  assume "ids_of as = [] \<or> (\<exists>i \<in> set (ids_of as). 0 \<le> i)"
  then obtain i where i: "i \<in> set (ids_of as)" "0 \<le> i" using False by blast
  have "0 \<le> Max (set (ids_of as))" using i by (meson List.finite_set Max_ge order_trans)
  moreover have "Max (insert 0 (set (ids_of as))) = max 0 (Max (set (ids_of as)))"
    using False by (simp add: Max_insert)
  ultimately show ?thesis using False by (simp add: maxId_Max spec_newId_def)
qed

subsection \<open>\<open>findIndex\<close> and \<open>filter\<close>\<close>

lemma findIndex_ge: "- 1 \<le> findIndex p xs"
  by (induction xs) (auto simp: Let_def)

lemma findIndex_none: "findIndex p xs = - 1 \<longleftrightarrow> (\<forall>x \<in> set xs. \<not> p x)"
proof (induction xs)
  case Nil
  then show ?case by simp
next
  case (Cons x xs)
  have "findIndex p xs + 1 \<noteq> - 1" using findIndex_ge [of p xs] by arith
  then show ?case using Cons.IH by (auto simp: Let_def)
qed

lemma findIndex_first:
  "i < length xs \<Longrightarrow> p (xs ! i) \<Longrightarrow> (\<forall>j < i. \<not> p (xs ! j)) \<Longrightarrow> findIndex p xs = int i"
proof (induction xs arbitrary: i)
  case Nil
  then show ?case by simp
next
  case (Cons x xs)
  show ?case
  proof (cases i)
    case 0
    then show ?thesis using Cons.prems by simp
  next
    case (Suc k)
    have "\<not> p x" using Cons.prems(3) Suc by force
    moreover have "findIndex p xs = int k"
      using Cons.IH [of k] Cons.prems Suc by force
    ultimately show ?thesis using Suc by (simp add: Let_def)
  qed
qed

lemma findIndex_found:
  "findIndex p xs \<noteq> - 1 \<Longrightarrow>
     nat (findIndex p xs) < length xs \<and> p (xs ! nat (findIndex p xs)) \<and> 0 \<le> findIndex p xs"
proof (induction xs)
  case Nil
  then show ?case by simp
next
  case (Cons x xs)
  show ?case
  proof (cases "p x")
    case True
    then show ?thesis by simp
  next
    case False
    then have ne: "findIndex p xs \<noteq> - 1" using Cons.prems by (simp add: Let_def split: if_splits)
    from Cons.IH [OF ne] have ih: "nat (findIndex p xs) < length xs" "p (xs ! nat (findIndex p xs))" "0 \<le> findIndex p xs"
      by auto
    have "nat (findIndex p xs + 1) = Suc (nat (findIndex p xs))" using ih(3) by simp
    then show ?thesis using False ne ih by (simp add: Let_def)
  qed
qed

lemma filter_length_eq: "length (filter P xs) = length xs \<longleftrightarrow> (\<forall>x \<in> set xs. P x)"
  by (metis filter_id_conv length_filter_le sum_length_filter_compl add_cancel_right_right length_0_conv filter_empty_conv)

subsection \<open>The handlers, with the store's accesses made explicit\<close>

lemma DataFile_update [simp]: "(data::DataFile)\<lparr>articles := as\<rparr> = \<lparr>articles = as\<rparr>"
  by (cases data) simp

lemma POST_eq:
  "POST s request =
     (case body request of
        None \<Rightarrow> (NextResponse_json (Failure Erreur_serveur) 500, logged s [Read])
      | Some a \<Rightarrow>
          (let new = a\<lparr>id' := Some (number_plus (maxId (articles (document s))) 1)\<rparr>;
               data' = \<lparr>articles = articles (document s) @ [new]\<rparr>;
               s' = logged s [Read, Write (Json data')]
           in case outcome s of
                Completes \<Rightarrow> (NextResponse_json (Success_article new) 200, s'\<lparr>disk := Holds (Json data')\<rparr>)
              | Refused \<Rightarrow> (NextResponse_json (Failure Echec_ecriture) 500, s')
              | Torn \<Rightarrow> (NextResponse_json (Failure Echec_ecriture) 500, s'\<lparr>disk := Holds Malformed\<rparr>)))"
  by (simp add: POST_def readDataFile_eq writeDataFile_eq logged_def Let_def
      split: option.splits write_outcome.splits)

lemma PUT_eq:
  "PUT s request =
     (case body request of
        None \<Rightarrow> (NextResponse_json (Failure Erreur_serveur) 500, logged s [Read])
      | Some u \<Rightarrow>
          (let index = findIndex (\<lambda>article. id' article = id' u) (articles (document s))
           in if index = - 1 then (NextResponse_json (Failure Article_non_trouve) 404, logged s [Read])
              else
                (let data' = \<lparr>articles = (articles (document s))[nat index := u]\<rparr>;
                     s' = logged s [Read, Write (Json data')]
                 in case outcome s of
                      Completes \<Rightarrow> (NextResponse_json (Success_article u) 200, s'\<lparr>disk := Holds (Json data')\<rparr>)
                    | Refused \<Rightarrow> (NextResponse_json (Failure Echec_ecriture) 500, s')
                    | Torn \<Rightarrow> (NextResponse_json (Failure Echec_ecriture) 500, s'\<lparr>disk := Holds Malformed\<rparr>))))"
  by (simp add: PUT_def readDataFile_eq writeDataFile_eq logged_def Let_def
      split: option.splits write_outcome.splits)

lemma DELETE_eq:
  "DELETE s request =
     (case parseInt (or_string (id_param request) ''0'') of
        None \<Rightarrow> (NextResponse_json (Failure ID_manquant) 400, s)
      | Some idn \<Rightarrow>
          (if idn = 0 then (NextResponse_json (Failure ID_manquant) 400, s)
           else
             (let filteredArticles = filter (\<lambda>article. id' article \<noteq> Some idn) (articles (document s))
              in if length filteredArticles = length (articles (document s))
                 then (NextResponse_json (Failure Article_non_trouve) 404, logged s [Read])
                 else
                   (let data' = \<lparr>articles = filteredArticles\<rparr>;
                        s' = logged s [Read, Write (Json data')]
                    in case outcome s of
                         Completes \<Rightarrow> (NextResponse_json Success 200, s'\<lparr>disk := Holds (Json data')\<rparr>)
                       | Refused \<Rightarrow> (NextResponse_json (Failure Echec_ecriture) 500, s')
                       | Torn \<Rightarrow> (NextResponse_json (Failure Echec_ecriture) 500, s'\<lparr>disk := Holds Malformed\<rparr>)))))"
  by (simp add: DELETE_def readDataFile_eq writeDataFile_eq logged_def Let_def
      split: option.splits write_outcome.splits)

lemma GET_eq: "GET s = (NextResponse_json (Data (document s)) 200, logged s [Read])"
  by (simp add: GET_def readDataFile_eq)

lemma POST_completes:
  "outcome s = Completes \<Longrightarrow> body request = Some a \<Longrightarrow>
     POST s request =
       (NextResponse_json (Success_article (a\<lparr>id' := Some (number_plus (maxId (articles (document s))) 1)\<rparr>)) 200,
        (logged s [Read, Write (Json \<lparr>articles = articles (document s)
            @ [a\<lparr>id' := Some (number_plus (maxId (articles (document s))) 1)\<rparr>]\<rparr>)])
          \<lparr>disk := Holds (Json \<lparr>articles = articles (document s)
            @ [a\<lparr>id' := Some (number_plus (maxId (articles (document s))) 1)\<rparr>]\<rparr>)\<rparr>)"
  by (simp add: POST_eq Let_def)

lemma POST_ignores_sent_id:
  "POST s (request\<lparr>body := Some (a\<lparr>id' := x\<rparr>)\<rparr>) = POST s (request\<lparr>body := Some (a\<lparr>id' := None\<rparr>)\<rparr>)"
  by (simp add: POST_eq Let_def)

lemma POST_each_ids:
  "outcome s = Completes \<Longrightarrow> maxId (articles (document s)) + int (length bs) \<le> 2 ^ 53 \<Longrightarrow>
     length (fst (POST_each s bs)) = length bs \<and>
     (\<forall>k < length bs. fst (POST_each s bs) ! k =
        NextResponse_json (Success_article ((bs ! k)\<lparr>id' := Some (maxId (articles (document s)) + int k + 1)\<rparr>)) 200)"
proof (induction bs arbitrary: s)
  case Nil
  then show ?case by simp
next
  case (Cons b bs)
  let ?m = "maxId (articles (document s))"
  let ?new = "b\<lparr>id' := Some (?m + 1)\<rparr>"
  let ?data = "\<lparr>articles = articles (document s) @ [?new]\<rparr>"
  let ?s1 = "(logged s [Read, Write (Json ?data)])\<lparr>disk := Holds (Json ?data)\<rparr>"
  have small: "?m < 2 ^ 53" using Cons.prems(2) by simp
  have new: "number_plus ?m 1 = ?m + 1" using small by (rule new_id_small)
  have step: "POST s \<lparr>body = Some b, id_param = None\<rparr> = (NextResponse_json (Success_article ?new) 200, ?s1)"
    using POST_completes [OF Cons.prems(1), of "\<lparr>body = Some b, id_param = None\<rparr>" b]
    by (simp add: new)
  have out: "outcome ?s1 = Completes" using Cons.prems by simp
  have mx0: "maxId (articles (document s) @ [?new]) = ?m + 1"
    using maxId_snoc [OF small, of b] by (simp add: new)
  have mx: "maxId (articles (document ?s1)) = ?m + 1"
    by (simp add: mx0)
  have bound: "maxId (articles (document ?s1)) + int (length bs) \<le> 2 ^ 53"
    using Cons.prems(2) by (simp add: mx0)
  from Cons.IH [OF out bound] have ih:
    "length (fst (POST_each ?s1 bs)) = length bs"
    "\<And>k. k < length bs \<Longrightarrow> fst (POST_each ?s1 bs) ! k =
        NextResponse_json (Success_article ((bs ! k)\<lparr>id' := Some (?m + 1 + int k + 1)\<rparr>)) 200"
    using mx by auto
  have unfold: "fst (POST_each s (b # bs)) = NextResponse_json (Success_article ?new) 200 # fst (POST_each ?s1 bs)"
    by (simp add: step split: prod.splits)
  show ?case
  proof (intro conjI allI impI)
    show "length (fst (POST_each s (b # bs))) = length (b # bs)"
      by (subst unfold) (simp add: ih(1))
  next
    fix k assume k: "k < length (b # bs)"
    show "fst (POST_each s (b # bs)) ! k =
        NextResponse_json (Success_article (((b # bs) ! k)\<lparr>id' := Some (?m + int k + 1)\<rparr>)) 200"
    proof (cases k)
      case 0
      then show ?thesis by (subst unfold) simp
    next
      case (Suc j)
      then have "j < length bs" using k by simp
      from ih(2) [OF this] show ?thesis using Suc
        by (subst unfold) (simp add: add.assoc add.commute)
    qed
  qed
qed

subsection \<open>The ids of a sequence of articles\<close>

lemma ids_of_Cons:
  "ids_of (a # as) = (case id' a of None \<Rightarrow> ids_of as | Some i \<Rightarrow> i # ids_of as)"
  by (simp add: ids_of_def List.map_filter_simps split: option.splits)

lemma ids_of_Nil [simp]: "ids_of [] = []"
  by (simp add: ids_of_def List.map_filter_simps)

lemma set_ids_of: "i \<in> set (ids_of as) \<longleftrightarrow> (\<exists>a \<in> set as. id' a = Some i)"
  by (induction as) (auto simp: ids_of_Cons split: option.splits)

lemma ids_of_update:
  "k < length as \<Longrightarrow> id' (as ! k) = id' u \<Longrightarrow> ids_of (as[k := u]) = ids_of as"
proof (induction as arbitrary: k)
  case Nil
  then show ?case by simp
next
  case (Cons a as)
  then show ?case by (cases k) (simp_all add: ids_of_Cons split: option.splits)
qed

lemma maxId_fresh: "maxId as < 2 ^ 53 \<Longrightarrow> number_plus (maxId as) 1 \<notin> set (ids_of as)"
  using maxId_ge [of "maxId as + 1" as] by (auto simp: new_id_small)

lemma unique_ids_POST:
  "unique_ids (document s) \<Longrightarrow> maxId (articles (document s)) < 2 ^ 53 \<Longrightarrow>
     unique_ids (document (snd (POST s request)))"
  by (auto simp: POST_eq Let_def unique_ids_def ids_of_snoc maxId_fresh
      split: option.splits write_outcome.splits)

lemma unique_ids_PUT: "unique_ids (document s) \<Longrightarrow> unique_ids (document (snd (PUT s request)))"
proof (cases "body request")
  case None
  assume "unique_ids (document s)"
  then show ?thesis using None by (simp add: PUT_eq)
next
  case (Some u)
  assume u: "unique_ids (document s)"
  let ?p = "\<lambda>article. id' article = id' u"
  show ?thesis
  proof (cases "findIndex ?p (articles (document s)) = - 1")
    case True
    then show ?thesis using Some u by (simp add: PUT_eq)
  next
    case False
    from findIndex_found [OF False]
    have "ids_of ((articles (document s))[nat (findIndex ?p (articles (document s))) := u])
            = ids_of (articles (document s))"
      by (simp add: ids_of_update)
    then show ?thesis using Some u False
      by (simp add: PUT_eq Let_def unique_ids_def split: write_outcome.splits)
  qed
qed

lemma unique_ids_DELETE: "unique_ids (document s) \<Longrightarrow> unique_ids (document (snd (DELETE s request)))"
  by (auto simp: DELETE_eq Let_def unique_ids_def ids_of_filter
      split: option.splits write_outcome.splits)


subsection \<open>\<open>parseInt\<close>\<close>

lemma parseInt_zero: "parseInt ''0'' = Some 0"
  by (simp add: parseInt_def isWhiteSpace_def digitValue_def Number_value_small)

lemma parseInt_rounds: "parseInt ''9007199254740993'' = Some 9007199254740992"
  by (simp add: parseInt_def isWhiteSpace_def digitValue_def Number_value_2_53_1)

lemma DELETE_by_rounded_id:
  "DELETE (stored [entry 9007199254740992 ''a''] Completes)
      \<lparr>body = None, id_param = Some ''9007199254740993''\<rparr>
     = (NextResponse_json Success 200,
        \<lparr>disk = Holds (Json \<lparr>articles = []\<rparr>), outcome = Completes,
          accesses = [Read, Write (Json \<lparr>articles = []\<rparr>)]\<rparr>)"
  by (simp add: DELETE_eq parseInt_rounds or_string_def)
    (simp add: stored_def entry_def document_cases logged_def Let_def)

subsection \<open>Matches of an id, and writes that fail\<close>

lemma unique_first:
  "distinct (ids_of as) \<Longrightarrow> i < length as \<Longrightarrow> id' (as ! i) = Some k \<Longrightarrow> j < i \<Longrightarrow>
     id' (as ! j) \<noteq> Some k"
proof (induction as arbitrary: i j)
  case Nil
  then show ?case by simp
next
  case (Cons a as)
  from Cons.prems(4) obtain i' where i': "i = Suc i'" by (cases i) auto
  then have in_as: "as ! i' \<in> set as" "id' (as ! i') = Some k" using Cons.prems by auto
  then have k: "k \<in> set (ids_of as)" by (auto simp: set_ids_of)
  show ?case
  proof (cases j)
    case 0
    then show ?thesis using Cons.prems(1) k by (auto simp: ids_of_Cons split: option.splits)
  next
    case (Suc j')
    have "distinct (ids_of as)" using Cons.prems(1) by (auto simp: ids_of_Cons split: option.splits)
    from Cons.IH [OF this, of i' j'] show ?thesis using Cons.prems i' Suc by simp
  qed
qed

lemma POST_attempts_write:
  "body request \<noteq> None \<Longrightarrow> \<exists>c. accesses (snd (POST s request)) = accesses s @ [Read, Write c]"
  by (auto simp: POST_eq Let_def split: write_outcome.splits)

lemma PUT_attempts_write:
  "body request = Some u \<Longrightarrow> id' u \<in> id' ` set (articles (document s)) \<Longrightarrow>
     \<exists>c. accesses (snd (PUT s request)) = accesses s @ [Read, Write c]"
proof -
  assume b: "body request = Some u" and m: "id' u \<in> id' ` set (articles (document s))"
  then have "findIndex (\<lambda>article. id' article = id' u) (articles (document s)) \<noteq> - 1"
    unfolding findIndex_none by (metis imageE)
  then show ?thesis using b by (auto simp: PUT_eq Let_def split: write_outcome.splits)
qed

lemma DELETE_attempts_write:
  "parseInt (or_string (id_param request) ''0'') = Some i \<Longrightarrow> i \<noteq> 0 \<Longrightarrow>
   Some i \<in> id' ` set (articles (document s)) \<Longrightarrow>
     \<exists>c. accesses (snd (DELETE s request)) = accesses s @ [Read, Write c]"
proof -
  assume p: "parseInt (or_string (id_param request) ''0'') = Some i" and nz: "i \<noteq> 0"
    and m: "Some i \<in> id' ` set (articles (document s))"
  from m have "length (filter (\<lambda>article. id' article \<noteq> Some i) (articles (document s)))
      \<noteq> length (articles (document s))"
    unfolding filter_length_eq by (metis imageE)
  then show ?thesis using p nz by (auto simp: DELETE_eq Let_def split: write_outcome.splits)
qed

lemma failed_write:
  "outcome s \<noteq> Completes \<Longrightarrow> op \<in> {POST, PUT, DELETE} \<Longrightarrow>
   accesses (snd (op s request)) = accesses s @ [Read, Write c] \<Longrightarrow>
     fst (op s request) = NextResponse_json (Failure Echec_ecriture) 500
     \<and> (outcome s = Refused \<longrightarrow>
           disk (snd (op s request)) = disk s \<and> document (snd (op s request)) = document s)
     \<and> (outcome s = Torn \<longrightarrow>
           disk (snd (op s request)) = Holds Malformed
           \<and> document (snd (op s request)) = \<lparr>articles = []\<rparr>)"
proof -
  assume o: "outcome s \<noteq> Completes" and op: "op \<in> {POST, PUT, DELETE}"
    and w: "accesses (snd (op s request)) = accesses s @ [Read, Write c]"
  from op consider "op = POST" | "op = PUT" | "op = DELETE" by auto
  then show ?thesis
  proof cases
    case 1
    then show ?thesis using o w
      by (cases "outcome s"; cases "body request") (simp_all add: POST_eq Let_def document_cases)
  next
    case 2
    then show ?thesis using o w
      by (cases "outcome s"; cases "body request")
        (simp_all add: PUT_eq Let_def document_cases split: if_splits)
  next
    case 3
    then show ?thesis using o w
      by (cases "outcome s"; cases "parseInt (or_string (id_param request) ''0'')")
        (simp_all add: DELETE_eq Let_def document_cases split: if_splits)
  qed
qed

lemma POST_status_200:
  "status (fst (POST s request)) = 200 \<longleftrightarrow> outcome s = Completes \<and> body request \<noteq> None"
  by (auto simp: POST_eq Let_def NextResponse_json_def split: option.splits write_outcome.splits)

subsection \<open>Create while the largest id is below \<open>2^53\<close>\<close>

text \<open>
  As long as the largest id on file is below \<open>2^53\<close>, the sum \<open>maxId + 1\<close> is exact:
  Create assigns the largest of 0 and the existing ids, plus one. That is the
  specification's "(max id among existing articles, or 0) + 1" when there is no existing
  id or some existing id is not negative; it is 1 for an empty Document and 6 for the
  existing ids 2, 5, 3; and a sequence of Creates from an empty Document assigns 1, 2, 3,
  ... in call order. Under the same bound, every operation keeps the ids pairwise distinct.
\<close>

lemma POST_next_id:
  "outcome s = Completes \<Longrightarrow> body request = Some a \<Longrightarrow> maxId (articles (document s)) < 2 ^ 53 \<Longrightarrow>
     fst (POST s request) =
       NextResponse_json (Success_article (a\<lparr>id' := Some (maxId (articles (document s)) + 1)\<rparr>)) 200
     \<and> articles (document (snd (POST s request))) =
         articles (document s) @ [a\<lparr>id' := Some (maxId (articles (document s)) + 1)\<rparr>]
     \<and> maxId (articles (document s)) = Max (insert 0 (set (ids_of (articles (document s)))))
     \<and> (ids_of (articles (document s)) = [] \<or> (\<exists>i \<in> set (ids_of (articles (document s))). 0 \<le> i)
          \<longrightarrow> maxId (articles (document s)) + 1 = spec_newId (articles (document s)))
     \<and> (articles (document s) = [] \<longrightarrow> maxId (articles (document s)) + 1 = 1)
     \<and> (map id' (articles (document s)) = [Some 2, Some 5, Some 3]
          \<longrightarrow> maxId (articles (document s)) + 1 = 6)"
proof (intro conjI impI)
  assume c: "outcome s = Completes" and b: "body request = Some a"
    and small: "maxId (articles (document s)) < 2 ^ 53"
  show "fst (POST s request) =
       NextResponse_json (Success_article (a\<lparr>id' := Some (maxId (articles (document s)) + 1)\<rparr>)) 200"
    by (simp add: POST_completes [OF c b] new_id_small [OF small])
  show "articles (document (snd (POST s request))) =
         articles (document s) @ [a\<lparr>id' := Some (maxId (articles (document s)) + 1)\<rparr>]"
    by (simp add: POST_completes [OF c b] new_id_small [OF small])
  show "maxId (articles (document s)) = Max (insert 0 (set (ids_of (articles (document s)))))"
    by (rule maxId_Max)
  show "maxId (articles (document s)) + 1 = spec_newId (articles (document s))"
    if "ids_of (articles (document s)) = [] \<or> (\<exists>i \<in> set (ids_of (articles (document s))). 0 \<le> i)"
    using that by (rule maxId_nonneg_agree)
  show "maxId (articles (document s)) + 1 = 1" if "articles (document s) = []"
    using that by (simp add: maxId_def)
  show "maxId (articles (document s)) + 1 = 6"
    if "map id' (articles (document s)) = [Some 2, Some 5, Some 3]"
  proof -
    from that obtain x y z where "articles (document s) = [x, y, z]"
      "id' x = Some 2" "id' y = Some 5" "id' z = Some 3"
      by (auto simp: map_eq_Cons_conv)
    then show ?thesis by (simp add: maxId_def)
  qed
qed

lemma POST_each_from_empty:
  "outcome s = Completes \<Longrightarrow> articles (document s) = [] \<Longrightarrow> int (length bs) \<le> 2 ^ 53 \<Longrightarrow>
     length (fst (POST_each s bs)) = length bs \<and>
     (\<forall>k < length bs. fst (POST_each s bs) ! k =
        NextResponse_json (Success_article ((bs ! k)\<lparr>id' := Some (int k + 1)\<rparr>)) 200)"
  using POST_each_ids [of s bs] by (simp add: maxId_def)

lemma unique_ids_preserved:
  "unique_ids (document s) \<Longrightarrow>
     unique_ids (document (snd (GET s)))
     \<and> (maxId (articles (document s)) < 2 ^ 53 \<longrightarrow> unique_ids (document (snd (POST s request))))
     \<and> unique_ids (document (snd (PUT s request)))
     \<and> unique_ids (document (snd (DELETE s request)))"
  by (simp add: GET_eq unique_ids_POST unique_ids_PUT unique_ids_DELETE)

section \<open>The claims\<close>

subsection \<open>C1: the id that Create assigns\<close>

text \<open>
  C1. The claim has Create assign the largest existing id plus one, for every Document,
  and the comment at line 60 of the source says the same. The code adds the one as a
  JavaScript number: with the id 9007199254740992 (\<open>2^53\<close>) on file the sum rounds back to
  9007199254740992, and Create returns the new record with the id the existing record
  already has, where the claim's rule gives 9007199254740993.
\<close>

theorem C1_id_not_incremented_at_2_53:
  "fst (POST (stored [entry 9007199254740992 ''a''] Completes)
          \<lparr>body = Some (draft ''d''), id_param = None\<rparr>)
     = NextResponse_json (Success_article (entry 9007199254740992 ''d'')) 200
   \<and> spec_newId (articles (document (stored [entry 9007199254740992 ''a''] Completes)))
     = 9007199254740993"
  by (simp add: POST_eq stored_def entry_def draft_def document_cases maxId_def logged_def
      spec_newId_def ids_of_def List.map_filter_simps Let_def number_plus_2_53)

subsection \<open>C2: Load never fails\<close>

text \<open>
  C2. The body of \<open>readDataFile\<close> raises exactly when the file is absent, unreadable or
  does not parse, and then \<open>readDataFile\<close> returns the empty Document \<open>{ articles: [] }\<close>
  instead of the error; when the file parses, it returns the parsed Document. List answers
  with status 200 and the loaded Document in every case.
\<close>

theorem C2_load_never_fails:
  "((\<exists>e. fst (readDataFile_try s) = Inl e)
      \<longleftrightarrow> disk s = Absent \<or> disk s = Unreadable \<or> disk s = Holds Malformed)
   \<and> (\<forall>e. fst (readDataFile_try s) = Inl e \<longrightarrow> fst (readDataFile s) = \<lparr>articles = []\<rparr>)
   \<and> (disk s = Absent \<or> disk s = Unreadable \<or> disk s = Holds Malformed
        \<longrightarrow> fst (readDataFile s) = \<lparr>articles = []\<rparr>)
   \<and> (\<forall>data. disk s = Holds (Json data) \<longrightarrow> fst (readDataFile s) = data)
   \<and> (\<forall>data. fst (readDataFile_try s) = Inr data \<longrightarrow> fst (readDataFile s) = data)
   \<and> fst (GET s) = NextResponse_json (Data (fst (readDataFile s))) 200"
proof (cases "disk s")
  case Absent
  then show ?thesis
    by (simp add: readDataFile_def readDataFile_try_def readFileSync_def GET_def)
next
  case Unreadable
  then show ?thesis
    by (simp add: readDataFile_def readDataFile_try_def readFileSync_def GET_def)
next
  case (Holds c)
  then show ?thesis
    by (cases c) (simp_all add: readDataFile_def readDataFile_try_def readFileSync_def GET_def)
qed

theorem C2_load_never_fails_witness:
  "fst (readDataFile \<lparr>disk = Absent, outcome = Completes, accesses = []\<rparr>) = \<lparr>articles = []\<rparr>
   \<and> fst (readDataFile \<lparr>disk = Unreadable, outcome = Completes, accesses = []\<rparr>) = \<lparr>articles = []\<rparr>
   \<and> fst (readDataFile \<lparr>disk = Holds Malformed, outcome = Completes, accesses = []\<rparr>) = \<lparr>articles = []\<rparr>
   \<and> fst (readDataFile (stored [entry 1 ''a''] Completes)) = \<lparr>articles = [entry 1 ''a'']\<rparr>"
  using C2_load_never_fails [of "\<lparr>disk = Absent, outcome = Completes, accesses = []\<rparr>"]
    C2_load_never_fails [of "\<lparr>disk = Unreadable, outcome = Completes, accesses = []\<rparr>"]
    C2_load_never_fails [of "\<lparr>disk = Holds Malformed, outcome = Completes, accesses = []\<rparr>"]
    C2_load_never_fails [of "stored [entry 1 ''a''] Completes"]
  by (simp add: stored_def)

subsection \<open>C3: id uniqueness is an invariant\<close>

text \<open>
  C3. The claim has every operation keep the ids pairwise distinct. List, Update and
  Delete do, and so does Create while the largest id is below \<open>2^53\<close>
  (\<open>unique_ids_preserved\<close>). Create on the Document whose only record has the id
  9007199254740992 does not: the ids are distinct before, and afterwards the Document
  holds two records with the id 9007199254740992.
\<close>

theorem C3_duplicate_id_at_2_53:
  "unique_ids (document (stored [entry 9007199254740992 ''a''] Completes))
   \<and> ids_of (articles (document (snd (POST (stored [entry 9007199254740992 ''a''] Completes)
          \<lparr>body = Some (draft ''d''), id_param = None\<rparr>))))
       = [9007199254740992, 9007199254740992]
   \<and> \<not> unique_ids (document (snd (POST (stored [entry 9007199254740992 ''a''] Completes)
          \<lparr>body = Some (draft ''d''), id_param = None\<rparr>)))"
  by (simp add: POST_eq stored_def entry_def draft_def document_cases maxId_def logged_def
      unique_ids_def ids_of_def List.map_filter_simps Let_def number_plus_2_53)

subsection \<open>C5: Update with an unknown id\<close>

text \<open>
  C5. When no article of the Document has the id of the submitted Article, Update answers
  404 (not found); the store has been read once and not written, and its file, hence its
  Document, is unchanged.
\<close>

theorem C5_update_unknown_id:
  "body request = Some u \<Longrightarrow> id' u \<notin> id' ` set (articles (document s)) \<Longrightarrow>
     PUT s request =
       (NextResponse_json (Failure Article_non_trouve) 404, s\<lparr>accesses := accesses s @ [Read]\<rparr>)
     \<and> disk (snd (PUT s request)) = disk s
     \<and> document (snd (PUT s request)) = document s
     \<and> accesses (snd (PUT s request)) = accesses s @ [Read]"
proof -
  assume b: "body request = Some u" and n: "id' u \<notin> id' ` set (articles (document s))"
  have "findIndex (\<lambda>article. id' article = id' u) (articles (document s)) = - 1"
    unfolding findIndex_none using n by (metis image_eqI)
  then have "PUT s request =
       (NextResponse_json (Failure Article_non_trouve) 404, s\<lparr>accesses := accesses s @ [Read]\<rparr>)"
    using b by (simp add: PUT_eq logged_def)
  then show ?thesis by (simp add: document_cases)
qed

theorem C5_update_unknown_id_witness:
  "body \<lparr>body = Some (entry 7 ''c''), id_param = None\<rparr> = Some (entry 7 ''c'')
   \<and> id' (entry 7 ''c'') \<notin> id' ` set (articles (document (stored [entry 2 ''a'', entry 5 ''b''] Completes)))
   \<and> PUT (stored [entry 2 ''a'', entry 5 ''b''] Completes) \<lparr>body = Some (entry 7 ''c''), id_param = None\<rparr>
       = (NextResponse_json (Failure Article_non_trouve) 404,
          \<lparr>disk = Holds (Json \<lparr>articles = [entry 2 ''a'', entry 5 ''b'']\<rparr>), outcome = Completes,
            accesses = [Read]\<rparr>)"
proof -
  have h: "id' (entry 7 ''c'') \<notin> id' ` set (articles (document (stored [entry 2 ''a'', entry 5 ''b''] Completes)))"
    by (simp add: document_cases stored_def entry_def)
  show ?thesis
    using h C5_update_unknown_id [OF _ h, of "\<lparr>body = Some (entry 7 ''c''), id_param = None\<rparr>"]
    by (simp add: stored_def)
qed

subsection \<open>C4: Delete without a usable id\<close>

text \<open>
  C4, as amended. Delete answers 400 (bad request) exactly when the id parameter, with
  \<open>"0"\<close> standing in for an absent or empty one, is read by \<open>parseInt\<close> as no number at
  all or as zero; this covers the absent parameter, the empty one and \<open>"0"\<close>. It answers
  before the store is read or written: the store is returned as it was. A parameter that
  \<open>parseInt\<close> reads as a nonzero integer, a negative one included, is accepted, and the
  store is then read.
\<close>

theorem C4_delete_rejects_missing_id:
  "(parseInt (or_string (id_param request) ''0'') = None
      \<or> parseInt (or_string (id_param request) ''0'') = Some 0
     \<longrightarrow> DELETE s request = (NextResponse_json (Failure ID_manquant) 400, s))
   \<and> (id_param request = None \<or> id_param request = Some [] \<or> id_param request = Some ''0''
     \<longrightarrow> DELETE s request = (NextResponse_json (Failure ID_manquant) 400, s))
   \<and> (status (fst (DELETE s request)) = 400
     \<longleftrightarrow> parseInt (or_string (id_param request) ''0'') = None
         \<or> parseInt (or_string (id_param request) ''0'') = Some 0)
   \<and> (\<forall>n. parseInt (or_string (id_param request) ''0'') = Some n \<and> n \<noteq> 0
     \<longrightarrow> status (fst (DELETE s request)) \<in> {200, 404, 500}
         \<and> take (Suc (length (accesses s))) (accesses (snd (DELETE s request))) = accesses s @ [Read])"
proof -
  let ?id = "parseInt (or_string (id_param request) ''0'')"
  have a: "?id = None \<or> ?id = Some 0
      \<longrightarrow> DELETE s request = (NextResponse_json (Failure ID_manquant) 400, s)"
    by (auto simp: DELETE_eq)
  have "or_string (id_param request) ''0'' = ''0''"
    if "id_param request = None \<or> id_param request = Some [] \<or> id_param request = Some ''0''"
    using that by (auto simp: or_string_def)
  then have b: "id_param request = None \<or> id_param request = Some [] \<or> id_param request = Some ''0''
      \<longrightarrow> DELETE s request = (NextResponse_json (Failure ID_manquant) 400, s)"
    by (simp add: DELETE_eq parseInt_zero)
  have c: "status (fst (DELETE s request)) = 400 \<longleftrightarrow> ?id = None \<or> ?id = Some 0"
    by (auto simp: DELETE_eq Let_def NextResponse_json_def split: option.splits write_outcome.splits)
  have d: "\<forall>n. ?id = Some n \<and> n \<noteq> 0
     \<longrightarrow> status (fst (DELETE s request)) \<in> {200, 404, 500}
         \<and> take (Suc (length (accesses s))) (accesses (snd (DELETE s request))) = accesses s @ [Read]"
    by (auto simp: DELETE_eq Let_def NextResponse_json_def split: option.splits write_outcome.splits)
  from a b c d show ?thesis by (intro conjI)
qed

theorem C4_delete_rejects_missing_id_witness:
  "DELETE (stored [entry 1 ''a''] Completes) \<lparr>body = None, id_param = None\<rparr>
     = (NextResponse_json (Failure ID_manquant) 400, stored [entry 1 ''a''] Completes)
   \<and> DELETE (stored [entry 1 ''a''] Completes) \<lparr>body = None, id_param = Some ''0''\<rparr>
     = (NextResponse_json (Failure ID_manquant) 400, stored [entry 1 ''a''] Completes)
   \<and> parseInt (or_string (Some ''abc'') ''0'') = None
   \<and> DELETE (stored [entry 1 ''a''] Completes) \<lparr>body = None, id_param = Some ''abc''\<rparr>
     = (NextResponse_json (Failure ID_manquant) 400, stored [entry 1 ''a''] Completes)"
proof -
  have h: "parseInt (or_string (Some ''abc'') ''0'') = None"
    by (simp add: parseInt_def isWhiteSpace_def digitValue_def or_string_def Number_value_small)
  show ?thesis
    using h C4_delete_rejects_missing_id [of "\<lparr>body = None, id_param = None\<rparr>" "stored [entry 1 ''a''] Completes"]
      C4_delete_rejects_missing_id [of "\<lparr>body = None, id_param = Some ''0''\<rparr>" "stored [entry 1 ''a''] Completes"]
      C4_delete_rejects_missing_id [of "\<lparr>body = None, id_param = Some ''abc''\<rparr>" "stored [entry 1 ''a''] Completes"]
    by simp
qed

text \<open>
  C4 as stated fails for an id that is not a positive integer but is not zero either:
  \<open>DELETE ?id=-5\<close> on a file holding a record whose id is \<open>-5\<close> reads the file, writes
  it without the record and answers 200.
\<close>

theorem C4_counterexample:
  "DELETE (stored [entry (- 5) ''a''] Completes) \<lparr>body = None, id_param = Some ''-5''\<rparr>
     = (NextResponse_json Success 200,
        \<lparr>disk = Holds (Json \<lparr>articles = []\<rparr>), outcome = Completes,
          accesses = [Read, Write (Json \<lparr>articles = []\<rparr>)]\<rparr>)"
  by (simp add: DELETE_eq parseInt_def isWhiteSpace_def digitValue_def or_string_def stored_def
      entry_def document_cases logged_def Let_def Number_value_small)

subsection \<open>C6: what Delete removes\<close>



subsection \<open>C7: what Update replaces\<close>

text \<open>
  C7. When the write completes and the record at index \<open>i\<close> has the id of the submitted
  Article, \<open>i\<close> being the match that the search finds (the first index with that id),
  which is every index with that id when the Article has an id and the ids of the Document
  are pairwise distinct, as the data model requires: Update answers 200 with the Article
  and the Document has the entry at \<open>i\<close> replaced by the whole submitted Article; the
  sequence keeps its length and every other entry keeps its value and its position.
\<close>

theorem C7_update_replaces_first_match:
  "body request = Some u \<Longrightarrow> outcome s = Completes \<Longrightarrow>
   i < length (articles (document s)) \<Longrightarrow> id' (articles (document s) ! i) = id' u \<Longrightarrow>
   (\<forall>j < i. id' (articles (document s) ! j) \<noteq> id' u)
     \<or> (id' u \<noteq> None \<and> unique_ids (document s)) \<Longrightarrow>
     fst (PUT s request) = NextResponse_json (Success_article u) 200
     \<and> articles (document (snd (PUT s request))) = (articles (document s))[i := u]
     \<and> length (articles (document (snd (PUT s request)))) = length (articles (document s))
     \<and> articles (document (snd (PUT s request))) ! i = u
     \<and> (\<forall>j < length (articles (document s)). j \<noteq> i \<longrightarrow>
           articles (document (snd (PUT s request))) ! j = articles (document s) ! j)"
proof -
  let ?as = "articles (document s)"
  let ?p = "\<lambda>article. id' article = id' u"
  assume b: "body request = Some u" and c: "outcome s = Completes"
    and i: "i < length ?as" and m: "id' (?as ! i) = id' u"
    and f: "(\<forall>j < i. id' (?as ! j) \<noteq> id' u) \<or> (id' u \<noteq> None \<and> unique_ids (document s))"
  have first: "\<forall>j < i. \<not> ?p (?as ! j)"
  proof (cases "\<forall>j < i. id' (?as ! j) \<noteq> id' u")
    case True
    then show ?thesis by simp
  next
    case False
    with f obtain k where k: "id' u = Some k" and d: "distinct (ids_of ?as)"
      by (auto simp: unique_ids_def)
    show ?thesis using unique_first [OF d i] m k by auto
  qed
  have idx: "findIndex ?p ?as = int i"
    using findIndex_first [of i ?as ?p] i m first by simp
  have put: "PUT s request =
     (NextResponse_json (Success_article u) 200,
      (logged s [Read, Write (Json \<lparr>articles = ?as[i := u]\<rparr>)])
        \<lparr>disk := Holds (Json \<lparr>articles = ?as[i := u]\<rparr>)\<rparr>)"
    using b c idx by (simp add: PUT_eq Let_def)
  show ?thesis using i by (simp add: put)
qed

theorem C7_update_replaces_first_match_witness:
  "body \<lparr>body = Some (entry 5 ''new''), id_param = None\<rparr> = Some (entry 5 ''new'')
   \<and> outcome (stored [entry 2 ''a'', entry 5 ''b'', entry 3 ''c''] Completes) = Completes
   \<and> (1::nat) < length (articles (document (stored [entry 2 ''a'', entry 5 ''b'', entry 3 ''c''] Completes)))
   \<and> id' (articles (document (stored [entry 2 ''a'', entry 5 ''b'', entry 3 ''c''] Completes)) ! 1)
       = id' (entry 5 ''new'')
   \<and> articles (document (snd (PUT (stored [entry 2 ''a'', entry 5 ''b'', entry 3 ''c''] Completes)
        \<lparr>body = Some (entry 5 ''new''), id_param = None\<rparr>)))
       = [entry 2 ''a'', entry 5 ''new'', entry 3 ''c'']"
proof -
  let ?s = "stored [entry 2 ''a'', entry 5 ''b'', entry 3 ''c''] Completes"
  have doc: "articles (document ?s) = [entry 2 ''a'', entry 5 ''b'', entry 3 ''c'']"
    by (simp add: stored_def document_cases)
  have h1: "body \<lparr>body = Some (entry 5 ''new''), id_param = None\<rparr> = Some (entry 5 ''new'')" by simp
  have h2: "outcome ?s = Completes" by (simp add: stored_def)
  have h3: "(1::nat) < length (articles (document ?s))" by (simp add: doc)
  have h4: "id' (articles (document ?s) ! 1) = id' (entry 5 ''new'')"
    unfolding doc by (simp add: entry_def)
  have h5: "(\<forall>j < (1::nat). id' (articles (document ?s) ! j) \<noteq> id' (entry 5 ''new''))
     \<or> (id' (entry 5 ''new'') \<noteq> None \<and> unique_ids (document ?s))"
    unfolding doc by (simp add: entry_def)
  show ?thesis
    using h1 h2 h3 h4 C7_update_replaces_first_match [OF h1 h2 h3 h4 h5]
    by (simp add: doc)
qed

subsection \<open>C8: a write that fails\<close>

text \<open>
  C8, as amended. When the write does not complete, every mutating operation that reaches
  its write (Create with a body that parses, Update with an id that is found, Delete with
  an accepted id that is found) answers 500 with the write-failure message and returns
  nothing of the Document it computed. The handler touches the file through that one
  write only: when the write was refused before the file was opened, the file keeps its
  content; when the write broke off after the file was truncated, the file no longer
  parses and the next Load reads it as the empty Document.
\<close>

theorem C8_write_failure:
  "outcome s \<noteq> Completes \<Longrightarrow>
     (\<forall>op \<in> {POST, PUT, DELETE}. \<forall>c.
        accesses (snd (op s request)) = accesses s @ [Read, Write c] \<longrightarrow>
          fst (op s request) = NextResponse_json (Failure Echec_ecriture) 500
          \<and> (outcome s = Refused \<longrightarrow>
                disk (snd (op s request)) = disk s \<and> document (snd (op s request)) = document s)
          \<and> (outcome s = Torn \<longrightarrow>
                disk (snd (op s request)) = Holds Malformed
                \<and> document (snd (op s request)) = \<lparr>articles = []\<rparr>))
     \<and> (body request \<noteq> None \<longrightarrow>
          (\<exists>c. accesses (snd (POST s request)) = accesses s @ [Read, Write c]))
     \<and> (\<forall>u. body request = Some u \<and> id' u \<in> id' ` set (articles (document s)) \<longrightarrow>
          (\<exists>c. accesses (snd (PUT s request)) = accesses s @ [Read, Write c]))
     \<and> (\<forall>i. parseInt (or_string (id_param request) ''0'') = Some i \<and> i \<noteq> 0
            \<and> Some i \<in> id' ` set (articles (document s)) \<longrightarrow>
          (\<exists>c. accesses (snd (DELETE s request)) = accesses s @ [Read, Write c]))"
  using failed_write [of s _ request] POST_attempts_write [of request s]
    PUT_attempts_write [of request _ s] DELETE_attempts_write [of request _ s]
  by blast

theorem C8_write_failure_witness:
  "outcome (stored [entry 1 ''a''] Refused) \<noteq> Completes
   \<and> fst (POST (stored [entry 1 ''a''] Refused) \<lparr>body = Some (draft ''b''), id_param = None\<rparr>)
       = NextResponse_json (Failure Echec_ecriture) 500
   \<and> disk (snd (POST (stored [entry 1 ''a''] Refused) \<lparr>body = Some (draft ''b''), id_param = None\<rparr>))
       = Holds (Json \<lparr>articles = [entry 1 ''a'']\<rparr>)"
proof -
  let ?s = "stored [entry 1 ''a''] Refused"
  let ?r = "\<lparr>body = Some (draft ''b''), id_param = None\<rparr>"
  have h1: "outcome ?s \<noteq> Completes" by (simp add: stored_def)
  have h2: "POST \<in> {POST, PUT, DELETE}" by simp
  have h3: "accesses (snd (POST ?s ?r)) = accesses ?s
      @ [Read, Write (Json \<lparr>articles = [entry 1 ''a'', (draft ''b'')\<lparr>id' := Some 2\<rparr>]\<rparr>)]"
    by (simp add: POST_eq stored_def document_cases Let_def logged_def maxId_def entry_def
        number_plus_small)
  show ?thesis
    using h1 h2 h3 C8_write_failure [OF h1, of ?r]
    by (simp add: stored_def)
qed

text \<open>
  C8 as stated fails for a write that breaks off after \<open>writeFileSync\<close> has truncated
  the file: Create answers 500, and the file, which held one record, no longer holds it.
\<close>

theorem C8_counterexample:
  "outcome (stored [entry 1 ''a''] Torn) \<noteq> Completes
   \<and> disk (stored [entry 1 ''a''] Torn) = Holds (Json \<lparr>articles = [entry 1 ''a'']\<rparr>)
   \<and> fst (POST (stored [entry 1 ''a''] Torn) \<lparr>body = Some (draft ''b''), id_param = None\<rparr>)
       = NextResponse_json (Failure Echec_ecriture) 500
   \<and> disk (snd (POST (stored [entry 1 ''a''] Torn) \<lparr>body = Some (draft ''b''), id_param = None\<rparr>))
       = Holds Malformed"
  by (simp add: POST_eq stored_def document_cases logged_def Let_def)

subsection \<open>C9: List after Create\<close>

text \<open>
  C9. After a Create that answered 200, for whatever Document and body, List on the
  resulting store returns the earlier articles, in their order, followed by the created
  record; that record is the one Create returned, it carries the id the service assigned
  and every other field exactly as submitted.
\<close>

theorem C9_create_then_list:
  "status (fst (POST s request)) = 200 \<Longrightarrow>
     (\<exists>fields new.
        body request = Some fields
        \<and> fst (POST s request) = NextResponse_json (Success_article new) 200
        \<and> fst (GET (snd (POST s request)))
            = NextResponse_json (Data \<lparr>articles = articles (document s) @ [new]\<rparr>) 200
        \<and> id' new = Some (number_plus (maxId (articles (document s))) 1)
        \<and> authors new = authors fields \<and> doi new = doi fields \<and> title new = title fields
        \<and> keywords' new = keywords' fields \<and> models new = models fields
        \<and> techniques new = techniques fields \<and> results new = results fields
        \<and> notes' new = notes' fields)"
proof -
  assume "status (fst (POST s request)) = 200"
  then have c: "outcome s = Completes" and "body request \<noteq> None"
    by (simp_all add: POST_status_200)
  then obtain fields where b: "body request = Some fields" by auto
  let ?new = "fields\<lparr>id' := Some (number_plus (maxId (articles (document s))) 1)\<rparr>"
  have "fst (POST s request) = NextResponse_json (Success_article ?new) 200"
    by (simp add: POST_completes [OF c b])
  moreover have "fst (GET (snd (POST s request)))
            = NextResponse_json (Data \<lparr>articles = articles (document s) @ [?new]\<rparr>) 200"
    by (simp add: POST_completes [OF c b] GET_eq)
  ultimately show ?thesis using b by (intro exI [of _ fields] exI [of _ ?new]) simp
qed

theorem C9_create_then_list_witness:
  "status (fst (POST (stored [entry 2 ''a''] Completes) \<lparr>body = Some (draft ''b''), id_param = None\<rparr>)) = 200
   \<and> fst (GET (snd (POST (stored [entry 2 ''a''] Completes) \<lparr>body = Some (draft ''b''), id_param = None\<rparr>)))
       = NextResponse_json (Data \<lparr>articles = [entry 2 ''a'', entry 3 ''b'']\<rparr>) 200"
proof -
  let ?s = "stored [entry 2 ''a''] Completes"
  let ?r = "\<lparr>body = Some (draft ''b''), id_param = None\<rparr>"
  have h: "status (fst (POST ?s ?r)) = 200"
    by (simp add: POST_status_200 stored_def)
  have doc: "articles (document ?s) = [entry 2 ''a'']" by (simp add: stored_def document_cases)
  have e: "new = entry 3 ''b''"
    if "id' new = Some 3" "authors new = authors (draft ''b'')" "doi new = doi (draft ''b'')"
      "title new = title (draft ''b'')" "keywords' new = keywords' (draft ''b'')"
      "models new = models (draft ''b'')" "techniques new = techniques (draft ''b'')"
      "results new = results (draft ''b'')" "notes' new = notes' (draft ''b'')" for new
    using that by (cases new) (simp add: entry_def draft_def)
  have m: "number_plus (maxId [entry 2 ''a'']) 1 = 3"
    by (simp add: maxId_def entry_def number_plus_small)
  from C9_create_then_list [OF h] obtain new where
    "fst (GET (snd (POST ?s ?r))) = NextResponse_json (Data \<lparr>articles = [entry 2 ''a''] @ [new]\<rparr>) 200"
    "new = entry 3 ''b''"
    unfolding doc m using e by auto
  with h show ?thesis by simp
qed

subsection \<open>C10: an id sent with Create is overwritten\<close>

text \<open>
  C10. The claim has Create overwrite an id sent in the body, which it does for every
  body (\<open>POST_ignores_sent_id\<close>), and has the stored and returned id always be the largest
  existing id plus one, as the comment at line 60 of the source says. With the id
  9007199254740992 on file the second part fails: a body sent with id 42 comes back and is
  stored with the id 9007199254740992, which the existing record already has, where the
  claim's rule gives 9007199254740993.
\<close>

theorem C10_overwritten_id_reissued_at_2_53:
  "id' (entry 42 ''c'') = Some 42
   \<and> POST (stored [entry 9007199254740992 ''a''] Completes)
        \<lparr>body = Some (entry 42 ''c''), id_param = None\<rparr>
     = (NextResponse_json (Success_article (entry 9007199254740992 ''c'')) 200,
        \<lparr>disk = Holds (Json \<lparr>articles = [entry 9007199254740992 ''a'', entry 9007199254740992 ''c'']\<rparr>),
          outcome = Completes,
          accesses = [Read, Write (Json \<lparr>articles = [entry 9007199254740992 ''a'', entry 9007199254740992 ''c'']\<rparr>)]\<rparr>)
   \<and> spec_newId (articles (document (stored [entry 9007199254740992 ''a''] Completes)))
     = 9007199254740993"
  by (simp add: POST_eq stored_def entry_def document_cases maxId_def logged_def
      spec_newId_def ids_of_def List.map_filter_simps Let_def number_plus_2_53)

end
